theory Spec2Isabelle
  imports Main "HOL-Library.Sublist"
begin

section \<open>Data model\<close>

text \<open>
  The pipeline of \<^verbatim>\<open>lambda_handler.py\<close> and \<^verbatim>\<open>storage.py\<close>: one S3 ObjectCreated
  event, one download, a content hash, an existence check on the hash-derived
  processed key, and then parsing, normalisation, validation, deduplication and the
  uploads.

  Raw file content is a byte string. The trigger event is the JSON document that the
  Lambda runtime hands to the handler as nested Python dicts and lists.
\<close>

type_synonym bytes = string

datatype json =
    JNull
  | JBool bool
  | JNum int
  | JStr string
  | JList "json list"
  | JDict "(string \<times> json) list"

text \<open>
  Python exceptions, as values. \<open>ValueError\<close> stands for every instance of the class
  (subclasses included), which is what \<^verbatim>\<open>except ValueError\<close> catches; \<open>ClientError\<close>
  carries the error code of \<^verbatim>\<open>botocore.exceptions.ClientError\<close>; \<open>OtherError\<close> is any
  exception of another class (for example botocore's connection and parameter errors,
  which are not \<open>ClientError\<close>s).
\<close>

datatype exn =
    KeyError string
  | IndexError
  | TypeError
  | ValueError string
  | ClientError string
  | OtherError string

text \<open>
  A pandas DataFrame: its column labels and its rows, in order. The cell type is left
  open; equality on it stands for the relation under which pandas takes two cells to be
  the same value when it looks for duplicates (missing values count as equal there).
\<close>

record 'c dataframe =
  columns :: "string list"
  rows :: "'c list list"

text \<open>\<^verbatim>\<open>len(df)\<close> is the number of rows.\<close>

definition len :: "'c dataframe \<Rightarrow> nat" where
  "len df = length (rows df)"

text \<open>
  The object store behind the module-level \<^verbatim>\<open>s3_client\<close>: the objects by bucket and
  key, and for each request what the service answers when it does not serve it (access
  denied, throttling, a lost connection).
\<close>

datatype s3op = GetOp | HeadOp | PutOp

record s3 =
  objects :: "(string \<times> string) \<rightharpoonup> bytes"
  fault :: "s3op \<Rightarrow> json \<Rightarrow> json \<Rightarrow> exn option"

text \<open>
  The dictionary logged at the end of a run. Its \<^verbatim>\<open>processing_time_seconds\<close> entry is
  read off the wall clock and is not part of the model.
\<close>

record metrics =
  file_key :: json
  hash :: string
  total_rows :: nat
  valid_rows :: nat
  invalid_rows :: nat

datatype log_msg =
    ProcessingFile json
  | AlreadyProcessed
  | SchemaValidationFailed string
  | Metrics metrics

text \<open>
  What \<^verbatim>\<open>lambda_handler\<close> calls, in the order it calls it: the storage functions, the
  helpers of the other modules, pandas' parser and deduplication, and the logger.
\<close>

datatype 'c call =
    DownloadFile json json
  | CalculateHash bytes
  | FileExists json json
  | LoadIntoDataframe bytes
  | NormalizeDataframe "'c dataframe"
  | ValidateDataframe "'c dataframe"
  | DropDuplicates "'c dataframe"
  | UploadFile json json "'c dataframe"
  | LogInfo log_msg
  | LogError log_msg

text \<open>
  The handler returns \<^verbatim>\<open>None\<close> from three places; the outcome says which one a run
  reached: the early return of the idempotency check, the return of the
  \<^verbatim>\<open>except ValueError\<close> branch, or the end of the function.
\<close>

datatype outcome = SkippedDuplicate | SchemaFailed | Reported metrics

text \<open>
  The functions that \<^verbatim>\<open>lambda_handler.py\<close> imports from modules that are not among the
  sources (\<^verbatim>\<open>utils.calculate_hash\<close>, \<^verbatim>\<open>cleaning.normalize_dataframe\<close>,
  \<^verbatim>\<open>validation.validate_dataframe\<close>) and the two pandas conversions
  (\<^verbatim>\<open>pd.read_csv\<close>, \<^verbatim>\<open>DataFrame.to_csv\<close>) are parameters of the model. Each of them may
  raise, except the hash and the serialisation.
\<close>

record 'c deps =
  calculate_hash :: "bytes \<Rightarrow> string"
  read_csv :: "bytes \<Rightarrow> exn + 'c dataframe"
  normalize_dataframe :: "'c dataframe \<Rightarrow> exn + 'c dataframe"
  validate_dataframe :: "'c dataframe \<Rightarrow> exn + ('c dataframe \<times> 'c dataframe)"
  to_csv :: "'c dataframe \<Rightarrow> bytes"

section \<open>Event extraction\<close>

text \<open>
  Python's subscript \<^verbatim>\<open>x["name"]\<close>: a dict looks the key up and raises \<open>KeyError\<close>
  when it is absent; a list or a string refuses a string index, and the other JSON
  values are not subscriptable.
\<close>

fun getitem :: "json \<Rightarrow> string \<Rightarrow> exn + json" where
  "getitem (JDict kvs) k =
     (case map_of kvs k of None \<Rightarrow> Inl (KeyError k) | Some v \<Rightarrow> Inr v)"
| "getitem _ k = Inl TypeError"

text \<open>
  \<^verbatim>\<open>x[0]\<close>: the first element of a list or the first character of a string,
  \<open>IndexError\<close> when there is none; a dict parsed from JSON has string keys only, so
  the key \<open>0\<close> is absent.
\<close>

fun getitem0 :: "json \<Rightarrow> exn + json" where
  "getitem0 (JList []) = Inl IndexError"
| "getitem0 (JList (x # xs)) = Inr x"
| "getitem0 (JStr []) = Inl IndexError"
| "getitem0 (JStr (c # cs)) = Inr (JStr [c])"
| "getitem0 (JDict kvs) = Inl (KeyError ''0'')"
| "getitem0 _ = Inl TypeError"

definition and_then :: "exn + 'a \<Rightarrow> ('a \<Rightarrow> exn + 'b) \<Rightarrow> exn + 'b" where
  "and_then r f = (case r of Inl e \<Rightarrow> Inl e | Inr v \<Rightarrow> f v)"

definition first_record :: "json \<Rightarrow> exn + json" where
  "first_record event = and_then (getitem event ''Records'') getitem0"

definition bucket_name :: "json \<Rightarrow> exn + json" where
  "bucket_name record =
     and_then (and_then (getitem record ''s3'') (\<lambda>s. getitem s ''bucket''))
       (\<lambda>b. getitem b ''name'')"

definition object_key :: "json \<Rightarrow> exn + json" where
  "object_key record =
     and_then (and_then (getitem record ''s3'') (\<lambda>s. getitem s ''object''))
       (\<lambda>ob. getitem ob ''key'')"

definition extract_s3_event :: "json \<Rightarrow> exn + (json \<times> json)" where
  "extract_s3_event event =
     and_then (first_record event) (\<lambda>record.
     and_then (bucket_name record) (\<lambda>bucket.
     and_then (object_key record) (\<lambda>key.
     Inr (bucket, key))))"

section \<open>Storage\<close>

text \<open>
  The three requests of the S3 client that \<^verbatim>\<open>storage.py\<close> uses. A request that the
  service does not serve raises what \<open>fault\<close> says. Bucket and key must be strings
  (the client validates its parameters before it sends anything). A GET or HEAD of an
  absent object is a \<open>ClientError\<close>, with code \<open>NoSuchKey\<close> or \<open>404\<close>; a PUT
  overwrites.
\<close>

definition location :: "json \<Rightarrow> json \<Rightarrow> exn + (string \<times> string)" where
  "location bucket key =
     (case (bucket, key) of
        (JStr b, JStr k) \<Rightarrow> Inr (b, k)
      | _ \<Rightarrow> Inl (OtherError ''ParamValidationError''))"

definition request :: "s3 \<Rightarrow> s3op \<Rightarrow> json \<Rightarrow> json \<Rightarrow> exn + (string \<times> string)" where
  "request s op bucket key =
     and_then (location bucket key) (\<lambda>loc.
       case fault s op bucket key of Some e \<Rightarrow> Inl e | None \<Rightarrow> Inr loc)"

definition get_object :: "s3 \<Rightarrow> json \<Rightarrow> json \<Rightarrow> exn + bytes" where
  "get_object s bucket key =
     and_then (request s GetOp bucket key) (\<lambda>loc.
       case objects s loc of None \<Rightarrow> Inl (ClientError ''NoSuchKey'') | Some body \<Rightarrow> Inr body)"

definition head_object :: "s3 \<Rightarrow> json \<Rightarrow> json \<Rightarrow> exn + unit" where
  "head_object s bucket key =
     and_then (request s HeadOp bucket key) (\<lambda>loc.
       case objects s loc of None \<Rightarrow> Inl (ClientError ''404'') | Some body \<Rightarrow> Inr ())"

definition put_object :: "s3 \<Rightarrow> json \<Rightarrow> json \<Rightarrow> bytes \<Rightarrow> exn + s3" where
  "put_object s bucket key body =
     and_then (request s PutOp bucket key) (\<lambda>loc.
       Inr (s\<lparr>objects := (objects s)(loc \<mapsto> body)\<rparr>))"

text \<open>\<^verbatim>\<open>storage.py\<close>.\<close>

definition download_file :: "s3 \<Rightarrow> json \<Rightarrow> json \<Rightarrow> exn + bytes" where
  "download_file s bucket key = get_object s bucket key"

definition upload_file :: "'c deps \<Rightarrow> s3 \<Rightarrow> json \<Rightarrow> json \<Rightarrow> 'c dataframe \<Rightarrow> exn + s3" where
  "upload_file D s bucket key df = put_object s bucket key (to_csv D df)"

text \<open>
  \<^verbatim>\<open>file_exists\<close> answers \<open>True\<close> when the HEAD request succeeds and \<open>False\<close> from its
  \<^verbatim>\<open>except botocore.exceptions.ClientError\<close> clause, whatever the error code; an
  exception of another class is not caught.
\<close>

definition file_exists :: "s3 \<Rightarrow> json \<Rightarrow> json \<Rightarrow> exn + bool" where
  "file_exists s bucket key =
     (case head_object s bucket key of
        Inr _ \<Rightarrow> Inr True
      | Inl (ClientError code) \<Rightarrow> Inr False
      | Inl e \<Rightarrow> Inl e)"

section \<open>Deduplication\<close>

text \<open>
  \<^verbatim>\<open>DataFrame.drop_duplicates(subset=...)\<close> with its default \<^verbatim>\<open>keep="first"\<close>. A frame
  with no rows or no columns is returned as it is. Otherwise a label of the subset that
  is not a column raises \<open>KeyError\<close>, and a row is dropped when an earlier row has
  the same cells in the columns whose label is in the subset.
\<close>

definition key_of :: "string list \<Rightarrow> string list \<Rightarrow> 'c list \<Rightarrow> 'c list" where
  "key_of labels cols row = map snd (filter (\<lambda>(name, cell). name \<in> set labels) (zip cols row))"

fun keep_first :: "('r \<Rightarrow> 'k) \<Rightarrow> 'k list \<Rightarrow> 'r list \<Rightarrow> 'r list" where
  "keep_first f seen [] = []"
| "keep_first f seen (r # rs) =
     (if f r \<in> set seen then keep_first f seen rs
      else r # keep_first f (f r # seen) rs)"

definition drop_duplicates :: "string list \<Rightarrow> 'c dataframe \<Rightarrow> exn + 'c dataframe" where
  "drop_duplicates labels df =
     (if rows df = [] \<or> columns df = [] then Inr df
      else case filter (\<lambda>name. name \<notin> set (columns df)) labels of
             missing # _ \<Rightarrow> Inl (KeyError missing)
           | [] \<Rightarrow> Inr (df\<lparr>rows := keep_first (key_of labels (columns df)) [] (rows df)\<rparr>))"

section \<open>The handler\<close>

definition processed_key :: "string \<Rightarrow> string" where
  "processed_key file_hash = ''processed/users_cleaned_'' @ file_hash @ ''.csv''"

definition error_key :: "string \<Rightarrow> string" where
  "error_key file_hash = ''error/invalid_rows_'' @ file_hash @ ''.csv''"

text \<open>
  A run yields what the handler returns or raises, the calls it made, and the store it
  leaves.
\<close>

type_synonym 'c run = "(exn + outcome) \<times> 'c call list \<times> s3"

definition after :: "'c call list \<Rightarrow> 'c run \<Rightarrow> 'c run" where
  "after cs r = (case r of (res, cs', s) \<Rightarrow> (res, cs @ cs', s))"

text \<open>Step 11: the metrics of the run, logged once both uploads are through.\<close>

definition report ::
  "s3 \<Rightarrow> json \<Rightarrow> string \<Rightarrow> nat \<Rightarrow> 'c dataframe \<Rightarrow> 'c dataframe \<Rightarrow> 'c run" where
  "report s key file_hash nrows valid_df invalid_df =
     (let m = \<lparr>file_key = key, hash = file_hash, total_rows = nrows,
               valid_rows = len valid_df, invalid_rows = len invalid_df\<rparr>
      in (Inr (Reported m), [LogInfo (Metrics m)], s))"

text \<open>Step 10: the invalid rows go to the error key when there are any.\<close>

definition persist_invalid ::
  "'c deps \<Rightarrow> s3 \<Rightarrow> json \<Rightarrow> json \<Rightarrow> string \<Rightarrow> nat \<Rightarrow> 'c dataframe \<Rightarrow> 'c dataframe \<Rightarrow> 'c run" where
  "persist_invalid D s bucket key file_hash nrows valid_df invalid_df =
     (if len invalid_df > 0 then
        after [UploadFile bucket (JStr (error_key file_hash)) invalid_df]
          (case upload_file D s bucket (JStr (error_key file_hash)) invalid_df of
             Inl e \<Rightarrow> (Inl e, [], s)
           | Inr s' \<Rightarrow> report s' key file_hash nrows valid_df invalid_df)
      else report s key file_hash nrows valid_df invalid_df)"

text \<open>Step 9: the deduplicated valid rows go to the processed key when there are any.\<close>

definition persist ::
  "'c deps \<Rightarrow> s3 \<Rightarrow> json \<Rightarrow> json \<Rightarrow> string \<Rightarrow> nat \<Rightarrow> 'c dataframe \<Rightarrow> 'c dataframe \<Rightarrow> 'c run" where
  "persist D s bucket key file_hash nrows valid_df invalid_df =
     (if len valid_df > 0 then
        after [UploadFile bucket (JStr (processed_key file_hash)) valid_df]
          (case upload_file D s bucket (JStr (processed_key file_hash)) valid_df of
             Inl e \<Rightarrow> (Inl e, [], s)
           | Inr s' \<Rightarrow> persist_invalid D s' bucket key file_hash nrows valid_df invalid_df)
      else persist_invalid D s bucket key file_hash nrows valid_df invalid_df)"

text \<open>Steps 7 and 8: validation, its \<^verbatim>\<open>except ValueError\<close> branch, and deduplication.\<close>

definition validate_and_persist ::
  "'c deps \<Rightarrow> s3 \<Rightarrow> json \<Rightarrow> json \<Rightarrow> string \<Rightarrow> nat \<Rightarrow> 'c dataframe \<Rightarrow> 'c run" where
  "validate_and_persist D s bucket key file_hash nrows df =
     after [ValidateDataframe df]
       (case validate_dataframe D df of
          Inl (ValueError msg) \<Rightarrow>
            after [LogError (SchemaValidationFailed msg),
                   UploadFile bucket (JStr (error_key file_hash)) df]
              (case upload_file D s bucket (JStr (error_key file_hash)) df of
                 Inl e \<Rightarrow> (Inl e, [], s)
               | Inr s' \<Rightarrow> (Inr SchemaFailed, [], s'))
        | Inl e \<Rightarrow> (Inl e, [], s)
        | Inr (valid_df, invalid_df) \<Rightarrow>
            after [DropDuplicates valid_df]
              (case drop_duplicates [''user_id''] valid_df of
                 Inl e \<Rightarrow> (Inl e, [], s)
               | Inr valid_df' \<Rightarrow> persist D s bucket key file_hash nrows valid_df' invalid_df))"

text \<open>Steps 5 and 6: parsing and normalisation.\<close>

definition process :: "'c deps \<Rightarrow> s3 \<Rightarrow> json \<Rightarrow> json \<Rightarrow> bytes \<Rightarrow> string \<Rightarrow> 'c run" where
  "process D s bucket key file_bytes file_hash =
     after [LoadIntoDataframe file_bytes]
       (case read_csv D file_bytes of
          Inl e \<Rightarrow> (Inl e, [], s)
        | Inr df \<Rightarrow>
            after [NormalizeDataframe df]
              (case normalize_dataframe D df of
                 Inl e \<Rightarrow> (Inl e, [], s)
               | Inr df' \<Rightarrow> validate_and_persist D s bucket key file_hash (len df) df'))"

text \<open>Steps 1 to 4, and the rest of the run when the idempotency check lets it pass.\<close>

definition lambda_handler :: "'c deps \<Rightarrow> json \<Rightarrow> s3 \<Rightarrow> 'c run" where
  "lambda_handler D event s =
     (case extract_s3_event event of
        Inl e \<Rightarrow> (Inl e, [], s)
      | Inr (bucket, key) \<Rightarrow>
          after [LogInfo (ProcessingFile key), DownloadFile bucket key]
            (case download_file s bucket key of
               Inl e \<Rightarrow> (Inl e, [], s)
             | Inr file_bytes \<Rightarrow>
                 (let file_hash = calculate_hash D file_bytes in
                  after [CalculateHash file_bytes,
                         FileExists bucket (JStr (processed_key file_hash))]
                    (case file_exists s bucket (JStr (processed_key file_hash)) of
                       Inl e \<Rightarrow> (Inl e, [], s)
                     | Inr True \<Rightarrow> (Inr SkippedDuplicate, [LogInfo AlreadyProcessed], s)
                     | Inr False \<Rightarrow> process D s bucket key file_bytes file_hash))))"

text \<open>The three parts of a run.\<close>

definition result :: "'c run \<Rightarrow> exn + outcome" where
  "result r = fst r"

definition calls :: "'c run \<Rightarrow> 'c call list" where
  "calls r = fst (snd r)"

definition store :: "'c run \<Rightarrow> s3" where
  "store r = snd (snd r)"

text \<open>The \<^verbatim>\<open>upload_file\<close> calls among the calls of a run: bucket, key and frame.\<close>

fun uploads :: "'c call list \<Rightarrow> (json \<times> json \<times> 'c dataframe) list" where
  "uploads [] = []"
| "uploads (UploadFile bucket key df # cs) = (bucket, key, df) # uploads cs"
| "uploads (c # cs) = uploads cs"

section \<open>Sample collaborators and inputs\<close>

text \<open>
  Concrete stand-ins for the parameters, used for the runs on concrete inputs below.
  Cells are strings, the empty string being a missing value. The CSV reader splits the
  content into its non-empty lines and each line at the commas; the writer is its
  inverse; the hash is the identity, a digest that depends on the bytes alone.
\<close>

fun split_on :: "char \<Rightarrow> string \<Rightarrow> string list" where
  "split_on c [] = [[]]"
| "split_on c (x # xs) =
     (if x = c then [] # split_on c xs
      else (case split_on c xs of w # ws \<Rightarrow> (x # w) # ws | [] \<Rightarrow> [[x]]))"

definition sample_read_csv :: "bytes \<Rightarrow> exn + string dataframe" where
  "sample_read_csv b =
     (case filter (\<lambda>l. l \<noteq> []) (split_on (CHR 0x0A) b) of
        [] \<Rightarrow> Inl (OtherError ''EmptyDataError'')
      | header # body \<Rightarrow>
          Inr \<lparr>columns = split_on CHR '','' header, rows = map (split_on CHR '','') body\<rparr>)"

fun join :: "char \<Rightarrow> string list \<Rightarrow> string" where
  "join c [] = []"
| "join c [w] = w"
| "join c (w # ws) = w @ c # join c ws"

definition sample_to_csv :: "string dataframe \<Rightarrow> bytes" where
  "sample_to_csv df = concat (map (\<lambda>r. join CHR '','' r @ [CHR 0x0A]) (columns df # rows df))"

text \<open>
  Modelled from the spec: \<^verbatim>\<open>validate_dataframe\<close> of \<^verbatim>\<open>validation.py\<close>, which is not among
  the sources. The column-level check comes first: a frame without one of the required
  columns \<open>user_id\<close> and \<open>email\<close> is a schema error, raised as \<open>ValueError\<close>. Otherwise
  each row is checked on its own: a row with an empty required field is invalid, every
  other row is valid, and both partitions keep the order of the input.
\<close>

definition sample_validate :: "string dataframe \<Rightarrow> exn + (string dataframe \<times> string dataframe)" where
  "sample_validate df =
     (if \<not> list_all (\<lambda>name. name \<in> set (columns df)) [''user_id'', ''email'']
      then Inl (ValueError ''Missing required columns'')
      else let ok = (\<lambda>r. list_all (\<lambda>cell. cell \<noteq> [])
                              (key_of [''user_id'', ''email''] (columns df) r))
           in Inr (df\<lparr>rows := filter ok (rows df)\<rparr>, df\<lparr>rows := filter (\<lambda>r. \<not> ok r) (rows df)\<rparr>))"

text \<open>
  Modelled from the spec: \<^verbatim>\<open>normalize_dataframe\<close> of \<^verbatim>\<open>cleaning.py\<close>, which is not among
  the sources. It is total and idempotent; on the sample inputs, whose labels and cells
  are already in canonical form, it returns the frame as it is.
\<close>

definition sample_deps :: "string deps" where
  "sample_deps = \<lparr>calculate_hash = (\<lambda>b. b), read_csv = sample_read_csv,
     normalize_dataframe = Inr, validate_dataframe = sample_validate, to_csv = sample_to_csv\<rparr>"

text \<open>An event with one record, and with a second record after it.\<close>

definition s3_record :: "string \<Rightarrow> string \<Rightarrow> json" where
  "s3_record b k = JDict [(''s3'',
      JDict [(''bucket'', JDict [(''name'', JStr b)]), (''object'', JDict [(''key'', JStr k)])])]"

definition s3_event :: "string \<Rightarrow> string \<Rightarrow> json" where
  "s3_event b k = JDict [(''Records'', JList [s3_record b k])]"

definition s3_event2 :: "string \<Rightarrow> string \<Rightarrow> json \<Rightarrow> json" where
  "s3_event2 b k r = JDict [(''Records'', JList [s3_record b k, r])]"

text \<open>
  A store that serves every request and holds the same content under two source keys
  of bucket \<open>b\<close>.
\<close>

definition serving :: "s3op \<Rightarrow> json \<Rightarrow> json \<Rightarrow> exn option" where
  "serving op bucket key = None"

definition store_with :: "bytes \<Rightarrow> s3" where
  "store_with content =
     \<lparr>objects = [(''b'', ''in/a.csv'') \<mapsto> content, (''b'', ''in/copy.csv'') \<mapsto> content],
      fault = serving\<rparr>"

text \<open>A store that holds one object and answers every HEAD request with 403.\<close>

definition head_denied :: "s3op \<Rightarrow> json \<Rightarrow> json \<Rightarrow> exn option" where
  "head_denied op bucket key = (if op = HeadOp then Some (ClientError ''403'') else None)"

definition denied_store :: s3 where
  "denied_store = \<lparr>objects = [(''b'', ''k'') \<mapsto> ''x''], fault = head_denied\<rparr>"

text \<open>
  Frames over the columns \<open>user_id\<close> and \<open>email\<close>, and three files: three rows of
  which two share \<open>user_id\<close> 7 and one has no email; a header without rows; and a file
  without the \<open>user_id\<close> column.
\<close>

definition frame :: "string list list \<Rightarrow> string dataframe" where
  "frame rs = \<lparr>columns = [''user_id'', ''email''], rows = rs\<rparr>"

definition users_csv :: bytes where
  "users_csv = ''user_id,email\<newline>7,a\<newline>7,b\<newline>8,\<newline>''"

definition header_csv :: bytes where
  "header_csv = ''user_id,email\<newline>''"

definition no_id_csv :: bytes where
  "no_id_csv = ''email\<newline>a\<newline>''"

definition users_store' :: s3 where
  "users_store' = (store_with users_csv)\<lparr>objects := (objects (store_with users_csv))
      ((''b'', processed_key users_csv) \<mapsto> ''user_id,email\<newline>7,a\<newline>'',
       (''b'', error_key users_csv) \<mapsto> ''user_id,email\<newline>8,\<newline>'')\<rparr>"

definition no_id_store' :: s3 where
  "no_id_store' = (store_with no_id_csv)\<lparr>objects := (objects (store_with no_id_csv))
      ((''b'', error_key no_id_csv) \<mapsto> no_id_csv)\<rparr>"

section \<open>Basic facts\<close>

lemma run_parts [simp]:
  "result (res, cs, s) = res" "calls (res, cs, s) = cs" "store (res, cs, s) = s"
  by (simp_all add: result_def calls_def store_def)

lemma after_triple [simp]: "after cs (res, cs', s) = (res, cs @ cs', s)"
  by (simp add: after_def)

lemma after_parts [simp]:
  "result (after cs r) = result r" "calls (after cs r) = cs @ calls r" "store (after cs r) = store r"
  by (cases r; simp)+

lemma after_after [simp]: "after cs (after cs' r) = after (cs @ cs') r"
  by (cases r) simp

lemma and_then_simps [simp]:
  "and_then (Inl e) f = Inl e" "and_then (Inr v) f = f v"
  by (simp_all add: and_then_def)

lemma and_then_Inr: "and_then r f = Inr y \<longleftrightarrow> (\<exists>v. r = Inr v \<and> f v = Inr y)"
  by (cases r) simp_all

lemma extract_first_record:
  "first_record event = Inr r \<Longrightarrow>
     extract_s3_event event =
       and_then (bucket_name r) (\<lambda>bucket. and_then (object_key r) (\<lambda>key. Inr (bucket, key)))"
  by (simp add: extract_s3_event_def)

lemma processed_key_neq_error_key: "processed_key h \<noteq> error_key h'"
  by (simp add: processed_key_def error_key_def)

lemma location_Inr: "location bucket key = Inr loc \<longleftrightarrow> bucket = JStr (fst loc) \<and> key = JStr (snd loc)"
  by (cases loc) (auto simp: location_def split: json.splits)

lemma request_Inr:
  "request s op bucket key = Inr loc \<longleftrightarrow>
     bucket = JStr (fst loc) \<and> key = JStr (snd loc) \<and> fault s op bucket key = None"
  by (auto simp: request_def and_then_Inr location_Inr split: option.splits)

lemma upload_file_Inr:
  "upload_file D s bucket key df = Inr s' \<longleftrightarrow>
     (\<exists>b k. bucket = JStr b \<and> key = JStr k \<and> fault s PutOp bucket key = None \<and>
            s' = s\<lparr>objects := (objects s)((b, k) \<mapsto> to_csv D df)\<rparr>)"
  by (auto simp: upload_file_def put_object_def and_then_Inr request_Inr)

lemma download_file_Inr:
  "download_file s bucket key = Inr body \<longleftrightarrow>
     (\<exists>b k. bucket = JStr b \<and> key = JStr k \<and> fault s GetOp bucket key = None \<and>
            objects s (b, k) = Some body)"
proof -
  have "(case objects s loc of None \<Rightarrow> Inl (ClientError ''NoSuchKey'') | Some b \<Rightarrow> Inr b) = Inr body
          \<longleftrightarrow> objects s loc = Some body" for loc
    by (cases "objects s loc") simp_all
  then show ?thesis
    by (auto simp: download_file_def get_object_def and_then_Inr request_Inr)
qed

lemma file_exists_True:
  "file_exists s bucket key = Inr True \<longleftrightarrow>
     (\<exists>b k. bucket = JStr b \<and> key = JStr k \<and> fault s HeadOp bucket key = None \<and>
            objects s (b, k) \<noteq> None)"
  by (auto simp: file_exists_def head_object_def request_def and_then_def location_def
      split: option.splits sum.splits exn.splits json.splits)

section \<open>Facts about deduplication\<close>

lemma set_keep_first:
  "f ` set (keep_first f seen rs) = f ` set rs - set seen"
  by (induction rs arbitrary: seen) auto

lemma distinct_keep_first:
  "distinct (map f (keep_first f seen rs))"
proof (induction rs arbitrary: seen)
  case Nil
  show ?case by simp
next
  case (Cons r rs)
  have "f r \<notin> f ` set (keep_first f (f r # seen) rs)"
    by (simp add: set_keep_first)
  with Cons show ?case by simp
qed

lemma find_keep_first:
  "find (\<lambda>x. f x = k) (keep_first f seen rs) =
     (if k \<in> set seen then None else find (\<lambda>x. f x = k) rs)"
proof (induction rs arbitrary: seen)
  case Nil
  show ?case by simp
next
  case (Cons r rs)
  show ?case
  proof (cases "f r \<in> set seen")
    case True
    with Cons show ?thesis by auto
  next
    case False
    with Cons show ?thesis by auto
  qed
qed

lemma subseq_keep_first: "subseq (keep_first f seen rs) rs"
  by (induction rs arbitrary: seen) auto


lemma key_of_absent:
  "l \<notin> set cols \<Longrightarrow> key_of [l] cols r = []"
proof (induction cols arbitrary: r)
  case Nil
  show ?case by (simp add: key_of_def)
next
  case (Cons c cs)
  then show ?case by (cases r) (auto simp: key_of_def)
qed

lemma key_of_cell:
  assumes "i < length cols" and "cols ! i = l"
    and "\<forall>j < length cols. cols ! j = l \<longrightarrow> j = i"
    and "i < length r"
  shows "key_of [l] cols r = [r ! i]"
  using assms
proof (induction cols arbitrary: r i)
  case Nil
  then show ?case by simp
next
  case (Cons c cs)
  from Cons.prems(4) obtain x xs where r: "r = x # xs" by (cases r) auto
  show ?case
  proof (cases i)
    case 0
    have "l \<notin> set cs"
    proof
      assume "l \<in> set cs"
      then obtain j where "j < length cs" "cs ! j = l" by (auto simp: in_set_conv_nth)
      with Cons.prems(3) have "Suc j = i" by auto
      with 0 show False by simp
    qed
    from key_of_absent [OF this, of xs] Cons.prems(2) 0 r show ?thesis
      by (simp add: key_of_def)
  next
    case (Suc i')
    from Cons.prems(3) Suc have "c \<noteq> l" by auto
    moreover have "key_of [l] cs xs = [xs ! i']"
    proof (rule Cons.IH)
      show "i' < length cs" using Cons.prems(1) Suc by simp
      show "cs ! i' = l" using Cons.prems(2) Suc by simp
      show "\<forall>j<length cs. cs ! j = l \<longrightarrow> j = i'"
      proof (intro allI impI)
        fix j assume "j < length cs" "cs ! j = l"
        with Cons.prems(3) have "Suc j = i" by auto
        with Suc show "j = i'" by simp
      qed
      show "i' < length xs" using Cons.prems(4) Suc r by simp
    qed
    ultimately show ?thesis using Suc r by (simp add: key_of_def)
  qed
qed

lemma keep_first_cell:
  "\<forall>r \<in> set rs. f r = [g r] \<Longrightarrow>
     keep_first f (map (\<lambda>x. [x]) seen) rs = keep_first g seen rs"
proof (induction rs arbitrary: seen)
  case Nil
  show ?case by simp
next
  case (Cons r rs)
  from Cons.prems have fr: "f r = [g r]" and rest: "\<forall>r \<in> set rs. f r = [g r]" by simp_all
  have mem: "[g r] \<in> set (map (\<lambda>x. [x]) seen) \<longleftrightarrow> g r \<in> set seen" by auto
  from Cons.IH [OF rest, of seen] Cons.IH [OF rest, of "g r # seen"] show ?case
    by (simp add: fr mem del: set_map)
qed

section \<open>Facts about the stages of a run\<close>

lemma upload_file_cases:
  obtains (Raise) e where "upload_file D s bucket key df = Inl e"
  | (Done) b k where "bucket = JStr b" "key = JStr k" "fault s PutOp bucket key = None"
      "upload_file D s bucket key df = Inr (s\<lparr>objects := (objects s)((b, k) \<mapsto> to_csv D df)\<rparr>)"
proof (cases "upload_file D s bucket key df")
  case (Inl e)
  then show ?thesis by (rule Raise)
next
  case (Inr s')
  then show ?thesis using Done by (auto simp: upload_file_Inr)
qed

lemma report_parts [simp]:
  "result (report s key h n v i) =
     Inr (Reported \<lparr>file_key = key, hash = h, total_rows = n, valid_rows = len v, invalid_rows = len i\<rparr>)"
  "calls (report s key h n v i) =
     [LogInfo (Metrics \<lparr>file_key = key, hash = h, total_rows = n, valid_rows = len v, invalid_rows = len i\<rparr>)]"
  "store (report s key h n v i) = s"
  by (simp_all add: report_def Let_def)

lemma persist_invalid_uploads:
  assumes "UploadFile b k x \<in> set (calls (persist_invalid D s bucket key h n v i))"
  shows "b = bucket \<and> k = JStr (error_key h) \<and> x = i \<and> rows i \<noteq> []"
  using assms
  by (cases rule: upload_file_cases [of D s bucket "JStr (error_key h)" i])
     (auto simp: persist_invalid_def len_def split: if_splits)

lemma persist_uploads:
  assumes "UploadFile b k x \<in> set (calls (persist D s bucket key h n v i))"
  shows "b = bucket \<and> (k = JStr (processed_key h) \<and> x = v \<and> rows v \<noteq> []
                      \<or> k = JStr (error_key h) \<and> x = i \<and> rows i \<noteq> [])"
  using assms
  by (cases rule: upload_file_cases [of D s bucket "JStr (processed_key h)" v])
     (auto simp: persist_def len_def split: if_splits dest: persist_invalid_uploads)

lemma persist_invalid_Reported:
  assumes "result (persist_invalid D s bucket key h n v i) = Inr (Reported m)"
  shows "m = \<lparr>file_key = key, hash = h, total_rows = n, valid_rows = len v, invalid_rows = len i\<rparr>
       \<and> calls (persist_invalid D s bucket key h n v i) =
           (if rows i \<noteq> [] then [UploadFile bucket (JStr (error_key h)) i] else []) @
           [LogInfo (Metrics m)]
       \<and> fault (store (persist_invalid D s bucket key h n v i)) = fault s
       \<and> (\<forall>bn. bucket = JStr bn \<longrightarrow> objects (store (persist_invalid D s bucket key h n v i)) =
           (if rows i \<noteq> [] then (objects s)((bn, error_key h) \<mapsto> to_csv D i) else objects s))"
  using assms
  by (cases rule: upload_file_cases [of D s bucket "JStr (error_key h)" i])
     (auto simp: persist_invalid_def len_def split: if_splits)

lemma persist_Reported:
  assumes "result (persist D s bucket key h n v i) = Inr (Reported m)"
  shows "m = \<lparr>file_key = key, hash = h, total_rows = n, valid_rows = len v, invalid_rows = len i\<rparr>
       \<and> calls (persist D s bucket key h n v i) =
           (if rows v \<noteq> [] then [UploadFile bucket (JStr (processed_key h)) v] else []) @
           (if rows i \<noteq> [] then [UploadFile bucket (JStr (error_key h)) i] else []) @
           [LogInfo (Metrics m)]
       \<and> fault (store (persist D s bucket key h n v i)) = fault s
       \<and> (\<forall>bn. bucket = JStr bn \<longrightarrow> objects (store (persist D s bucket key h n v i)) =
           (let o1 = (if rows v \<noteq> [] then (objects s)((bn, processed_key h) \<mapsto> to_csv D v) else objects s)
            in if rows i \<noteq> [] then o1((bn, error_key h) \<mapsto> to_csv D i) else o1))"
proof (cases "rows v = []")
  case True
  with assms show ?thesis
    using persist_invalid_Reported [of D s bucket key h n v i m]
    by (simp add: persist_def len_def)
next
  case False
  show ?thesis
  proof (cases rule: upload_file_cases [of D s bucket "JStr (processed_key h)" v])
    case (Raise e)
    with assms False show ?thesis by (simp add: persist_def len_def)
  next
    case (Done b k)
    let ?s' = "s\<lparr>objects := (objects s)((b, k) \<mapsto> to_csv D v)\<rparr>"
    from assms False Done
    have r: "result (persist_invalid D ?s' bucket key h n v i) = Inr (Reported m)"
      and p: "persist D s bucket key h n v i =
               after [UploadFile bucket (JStr (processed_key h)) v]
                 (persist_invalid D ?s' bucket key h n v i)"
      by (simp_all add: persist_def len_def)
    from Done(2) have k: "k = processed_key h" by simp
    from persist_invalid_Reported [OF r] False Done(1) show ?thesis
      unfolding p k by (simp add: Let_def)
  qed
qed

lemma validate_and_persist_schema_error:
  assumes "validate_dataframe D df = Inl (ValueError msg)"
  shows "validate_and_persist D s bucket key h n df =
           after [ValidateDataframe df, LogError (SchemaValidationFailed msg),
                  UploadFile bucket (JStr (error_key h)) df]
             (case upload_file D s bucket (JStr (error_key h)) df of
                Inl e \<Rightarrow> (Inl e, [], s)
              | Inr s' \<Rightarrow> (Inr SchemaFailed, [], s'))"
  using assms by (simp add: validate_and_persist_def split: sum.splits)

lemma validate_and_persist_partitioned:
  assumes "validate_dataframe D df = Inr (v, i)" and "drop_duplicates [''user_id''] v = Inr v'"
  shows "validate_and_persist D s bucket key h n df =
           after [ValidateDataframe df, DropDuplicates v] (persist D s bucket key h n v' i)"
  using assms by (simp add: validate_and_persist_def)

lemma process_parsed:
  assumes "read_csv D file_bytes = Inr df0" and "normalize_dataframe D df0 = Inr df"
  shows "process D s bucket key file_bytes h =
           after [LoadIntoDataframe file_bytes, NormalizeDataframe df0]
             (validate_and_persist D s bucket key h (len df0) df)"
  using assms by (simp add: process_def)

lemma lambda_handler_not_seen:
  assumes "extract_s3_event event = Inr (bucket, key)"
    and "download_file s bucket key = Inr file_bytes"
    and "file_exists s bucket (JStr (processed_key (calculate_hash D file_bytes))) = Inr False"
  shows "lambda_handler D event s =
           after [LogInfo (ProcessingFile key), DownloadFile bucket key, CalculateHash file_bytes,
                  FileExists bucket (JStr (processed_key (calculate_hash D file_bytes)))]
             (process D s bucket key file_bytes (calculate_hash D file_bytes))"
  using assms by (simp add: lambda_handler_def Let_def)

lemma validate_and_persist_uploads:
  assumes "UploadFile b k x \<in> set (calls (validate_and_persist D s bucket key h n df))"
  shows "b = bucket \<and>
         (k = JStr (error_key h)
          \<or> k = JStr (processed_key h) \<and> rows x \<noteq> [] \<and>
            (\<exists>v i. validate_dataframe D df = Inr (v, i) \<and> drop_duplicates [''user_id''] v = Inr x))"
proof (cases "validate_dataframe D df")
  case (Inl e)
  with assms show ?thesis
    by (cases e; cases "upload_file D s bucket (JStr (error_key h)) df")
       (auto simp: validate_and_persist_def)
next
  case (Inr p)
  obtain v i where p: "p = (v, i)" by (cases p)
  show ?thesis
  proof (cases "drop_duplicates [''user_id''] v")
    case (Inl e)
    with assms Inr p show ?thesis by (simp add: validate_and_persist_def)
  next
    case inr: (Inr v')
    with assms Inr p
    have "UploadFile b k x \<in> set (calls (persist D s bucket key h n v' i))"
      by (simp add: validate_and_persist_def)
    from persist_uploads [OF this] Inr p inr show ?thesis by auto
  qed
qed

lemma process_uploads:
  assumes "UploadFile b k x \<in> set (calls (process D s bucket key file_bytes h))"
  shows "b = bucket \<and>
         (k = JStr (error_key h)
          \<or> k = JStr (processed_key h) \<and> rows x \<noteq> [] \<and>
            (\<exists>v. drop_duplicates [''user_id''] v = Inr x))"
proof (cases "read_csv D file_bytes")
  case (Inl e)
  with assms show ?thesis by (simp add: process_def)
next
  case (Inr df0)
  show ?thesis
  proof (cases "normalize_dataframe D df0")
    case (Inl e)
    with assms Inr show ?thesis by (simp add: process_def)
  next
    case inr: (Inr df)
    with assms Inr
    have "UploadFile b k x \<in> set (calls (validate_and_persist D s bucket key h (len df0) df))"
      by (simp add: process_def)
    from validate_and_persist_uploads [OF this] show ?thesis by blast
  qed
qed

lemma lambda_handler_uploads:
  assumes "UploadFile b k x \<in> set (calls (lambda_handler D event s))"
  shows "\<exists>key file_bytes.
           extract_s3_event event = Inr (b, key) \<and> download_file s b key = Inr file_bytes \<and>
           (k = JStr (error_key (calculate_hash D file_bytes))
            \<or> k = JStr (processed_key (calculate_hash D file_bytes)) \<and> rows x \<noteq> [] \<and>
              (\<exists>v. drop_duplicates [''user_id''] v = Inr x))"
proof (cases "extract_s3_event event")
  case (Inl e)
  with assms show ?thesis by (simp add: lambda_handler_def)
next
  case (Inr p)
  obtain bucket key where p: "p = (bucket, key)" by (cases p)
  show ?thesis
  proof (cases "download_file s bucket key")
    case (Inl e)
    with assms Inr p show ?thesis by (simp add: lambda_handler_def)
  next
    case inr: (Inr file_bytes)
    let ?h = "calculate_hash D file_bytes"
    show ?thesis
    proof (cases "file_exists s bucket (JStr (processed_key ?h))")
      case (Inl e)
      with assms Inr p inr show ?thesis by (simp add: lambda_handler_def Let_def)
    next
      case ex: (Inr seen)
      show ?thesis
      proof (cases seen)
        case True
        with assms Inr p inr ex show ?thesis by (simp add: lambda_handler_def Let_def)
      next
        case False
        with assms Inr p inr ex
        have "UploadFile b k x \<in> set (calls (process D s bucket key file_bytes ?h))"
          by (simp add: lambda_handler_def Let_def)
        from process_uploads [OF this] Inr p inr show ?thesis by auto
      qed
    qed
  qed
qed

lemma uploads_append [simp]: "uploads (cs @ cs') = uploads cs @ uploads cs'"
  by (induction cs rule: uploads.induct) simp_all

lemma validate_and_persist_Reported:
  assumes "result (validate_and_persist D s bucket key h n df) = Inr (Reported m)"
  shows "\<exists>v i v'. validate_dataframe D df = Inr (v, i) \<and> drop_duplicates [''user_id''] v = Inr v' \<and>
           result (persist D s bucket key h n v' i) = Inr (Reported m)"
proof (cases "validate_dataframe D df")
  case (Inl e)
  with assms show ?thesis
    by (cases e; cases "upload_file D s bucket (JStr (error_key h)) df")
       (simp_all add: validate_and_persist_def)
next
  case (Inr p)
  obtain v i where p: "p = (v, i)" by (cases p)
  with assms Inr show ?thesis
    by (cases "drop_duplicates [''user_id''] v") (simp_all add: validate_and_persist_def)
qed

lemma process_Reported:
  assumes "result (process D s bucket key file_bytes h) = Inr (Reported m)"
  shows "\<exists>df0 df. read_csv D file_bytes = Inr df0 \<and> normalize_dataframe D df0 = Inr df \<and>
           result (validate_and_persist D s bucket key h (len df0) df) = Inr (Reported m)"
proof (cases "read_csv D file_bytes")
  case (Inl e)
  with assms show ?thesis by (simp add: process_def)
next
  case (Inr df0)
  with assms show ?thesis
    by (cases "normalize_dataframe D df0") (simp_all add: process_def)
qed

lemma lambda_handler_Reported:
  assumes "result (lambda_handler D event s) = Inr (Reported m)"
  shows "\<exists>bucket key file_bytes.
           extract_s3_event event = Inr (bucket, key) \<and> download_file s bucket key = Inr file_bytes \<and>
           file_exists s bucket (JStr (processed_key (calculate_hash D file_bytes))) = Inr False \<and>
           result (process D s bucket key file_bytes (calculate_hash D file_bytes)) = Inr (Reported m)"
proof (cases "extract_s3_event event")
  case (Inl e)
  with assms show ?thesis by (simp add: lambda_handler_def)
next
  case (Inr p)
  obtain bucket key where p: "p = (bucket, key)" by (cases p)
  show ?thesis
  proof (cases "download_file s bucket key")
    case (Inl e)
    with assms Inr p show ?thesis by (simp add: lambda_handler_def)
  next
    case inr: (Inr file_bytes)
    let ?h = "calculate_hash D file_bytes"
    show ?thesis
    proof (cases "file_exists s bucket (JStr (processed_key ?h))")
      case (Inl e)
      with assms Inr p inr show ?thesis by (simp add: lambda_handler_def Let_def)
    next
      case ex: (Inr seen)
      with assms Inr p inr show ?thesis
        by (cases seen) (simp_all add: lambda_handler_def Let_def)
    qed
  qed
qed

section \<open>The sample runs\<close>

lemma frame_parts [simp]:
  "columns (frame rs) = [''user_id'', ''email'']" "rows (frame rs) = rs"
  "frame rs\<lparr>rows := rs'\<rparr> = frame rs'"
  by (simp_all add: frame_def)

lemma sample_deps_parts [simp]:
  "calculate_hash sample_deps b = b" "read_csv sample_deps = sample_read_csv"
  "normalize_dataframe sample_deps = Inr" "validate_dataframe sample_deps = sample_validate"
  "to_csv sample_deps = sample_to_csv"
  by (simp_all add: sample_deps_def)

lemma store_with_parts [simp]:
  "fault (store_with c) op bucket key = None"
  "objects (store_with c) = [(''b'', ''in/a.csv'') \<mapsto> c, (''b'', ''in/copy.csv'') \<mapsto> c]"
  by (simp_all add: store_with_def serving_def)

lemma first_record_sample [simp]:
  "first_record (s3_event b k) = Inr (s3_record b k)"
  "first_record (s3_event2 b k r) = Inr (s3_record b k)"
  by (simp_all add: s3_event_def s3_event2_def first_record_def)

lemma s3_record_parts [simp]:
  "bucket_name (s3_record b k) = Inr (JStr b)" "object_key (s3_record b k) = Inr (JStr k)"
  by (simp_all add: s3_record_def bucket_name_def object_key_def)

lemma extract_s3_event_sample [simp]:
  "extract_s3_event (s3_event b k) = Inr (JStr b, JStr k)"
  by (simp add: extract_s3_event_def)

lemma sample_download [simp]:
  "download_file (store_with c) (JStr ''b'') (JStr ''in/a.csv'') = Inr c"
  "download_file (store_with c) (JStr ''b'') (JStr ''in/copy.csv'') = Inr c"
  by (simp_all add: download_file_Inr)

lemma sample_not_seen [simp]:
  "file_exists (store_with c) (JStr ''b'') (JStr (processed_key h)) = Inr False"
  by (simp add: file_exists_def head_object_def request_def location_def processed_key_def)

lemma read_users_csv:
  "sample_read_csv users_csv = Inr (frame [[''7'', ''a''], [''7'', ''b''], [''8'', '''']])"
  by code_simp

lemma validate_users:
  "sample_validate (frame [[''7'', ''a''], [''7'', ''b''], [''8'', '''']]) =
     Inr (frame [[''7'', ''a''], [''7'', ''b'']], frame [[''8'', '''']])"
  by code_simp

lemma dedupe_users:
  "drop_duplicates [''user_id''] (frame [[''7'', ''a''], [''7'', ''b'']]) = Inr (frame [[''7'', ''a'']])"
  by code_simp

lemma dedupe_three:
  "drop_duplicates [''user_id''] (frame [[''7'', ''a''], [''8'', ''b''], [''7'', ''c'']])
     = Inr (frame [[''7'', ''a''], [''8'', ''b'']])"
  by code_simp

lemma users_run_path:
  "lambda_handler sample_deps (s3_event ''b'' ''in/a.csv'') (store_with users_csv) =
     after [LogInfo (ProcessingFile (JStr ''in/a.csv'')),
            DownloadFile (JStr ''b'') (JStr ''in/a.csv''), CalculateHash users_csv,
            FileExists (JStr ''b'') (JStr (processed_key users_csv)),
            LoadIntoDataframe users_csv,
            NormalizeDataframe (frame [[''7'', ''a''], [''7'', ''b''], [''8'', '''']]),
            ValidateDataframe (frame [[''7'', ''a''], [''7'', ''b''], [''8'', '''']]),
            DropDuplicates (frame [[''7'', ''a''], [''7'', ''b'']])]
       (persist sample_deps (store_with users_csv) (JStr ''b'') (JStr ''in/a.csv'') users_csv 3
          (frame [[''7'', ''a'']]) (frame [[''8'', '''']]))"
  using lambda_handler_not_seen [of "s3_event ''b'' ''in/a.csv''" "JStr ''b''" "JStr ''in/a.csv''"
      "store_with users_csv" users_csv sample_deps]
    process_parsed [of sample_deps users_csv "frame [[''7'', ''a''], [''7'', ''b''], [''8'', '''']]"
      "frame [[''7'', ''a''], [''7'', ''b''], [''8'', '''']]"
      "store_with users_csv" "JStr ''b''" "JStr ''in/a.csv''" users_csv]
    validate_and_persist_partitioned [of sample_deps
      "frame [[''7'', ''a''], [''7'', ''b''], [''8'', '''']]"
      "frame [[''7'', ''a''], [''7'', ''b'']]" "frame [[''8'', '''']]" "frame [[''7'', ''a'']]"
      "store_with users_csv" "JStr ''b''" "JStr ''in/a.csv''" users_csv]
  by (simp add: read_users_csv validate_users dedupe_users len_def numeral_3_eq_3)

lemma users_run:
  "lambda_handler sample_deps (s3_event ''b'' ''in/a.csv'') (store_with users_csv) =
     (Inr (Reported \<lparr>file_key = JStr ''in/a.csv'', hash = users_csv, total_rows = 3,
                     valid_rows = 1, invalid_rows = 1\<rparr>),
      [LogInfo (ProcessingFile (JStr ''in/a.csv'')),
       DownloadFile (JStr ''b'') (JStr ''in/a.csv''),
       CalculateHash users_csv,
       FileExists (JStr ''b'') (JStr (processed_key users_csv)),
       LoadIntoDataframe users_csv,
       NormalizeDataframe (frame [[''7'', ''a''], [''7'', ''b''], [''8'', '''']]),
       ValidateDataframe (frame [[''7'', ''a''], [''7'', ''b''], [''8'', '''']]),
       DropDuplicates (frame [[''7'', ''a''], [''7'', ''b'']]),
       UploadFile (JStr ''b'') (JStr (processed_key users_csv)) (frame [[''7'', ''a'']]),
       UploadFile (JStr ''b'') (JStr (error_key users_csv)) (frame [[''8'', '''']]),
       LogInfo (Metrics \<lparr>file_key = JStr ''in/a.csv'', hash = users_csv, total_rows = 3,
                     valid_rows = 1, invalid_rows = 1\<rparr>)],
      users_store')"
  by (simp add: users_run_path persist_def persist_invalid_def report_def Let_def len_def
      upload_file_def put_object_def request_def location_def sample_to_csv_def users_store'_def)

lemma users_store'_download:
  "download_file users_store' (JStr ''b'') (JStr ''in/copy.csv'') = Inr users_csv"
  by (simp add: download_file_Inr users_store'_def processed_key_def error_key_def)

lemma read_header_csv: "sample_read_csv header_csv = Inr (frame [])"
  by code_simp

lemma validate_header: "sample_validate (frame []) = Inr (frame [], frame [])"
  by code_simp

lemma header_run:
  assumes "k = ''in/a.csv'' \<or> k = ''in/copy.csv''"
  shows "lambda_handler sample_deps (s3_event ''b'' k) (store_with header_csv) =
     (Inr (Reported \<lparr>file_key = JStr k, hash = header_csv, total_rows = 0,
                     valid_rows = 0, invalid_rows = 0\<rparr>),
      [LogInfo (ProcessingFile (JStr k)),
       DownloadFile (JStr ''b'') (JStr k),
       CalculateHash header_csv,
       FileExists (JStr ''b'') (JStr (processed_key header_csv)),
       LoadIntoDataframe header_csv,
       NormalizeDataframe (frame []),
       ValidateDataframe (frame []),
       DropDuplicates (frame []),
       LogInfo (Metrics \<lparr>file_key = JStr k, hash = header_csv, total_rows = 0,
                     valid_rows = 0, invalid_rows = 0\<rparr>)],
      store_with header_csv)"
proof -
  from assms have dl: "download_file (store_with header_csv) (JStr ''b'') (JStr k) = Inr header_csv"
    by auto
  have dd: "drop_duplicates [''user_id''] (frame []) = Inr (frame [])"
    by (simp add: drop_duplicates_def)
  show ?thesis
    using lambda_handler_not_seen [of "s3_event ''b'' k" "JStr ''b''" "JStr k"
        "store_with header_csv" header_csv sample_deps]
      process_parsed [of sample_deps header_csv "frame []" "frame []"
        "store_with header_csv" "JStr ''b''" "JStr k" header_csv]
      validate_and_persist_partitioned [of sample_deps "frame []" "frame []" "frame []" "frame []"
        "store_with header_csv" "JStr ''b''" "JStr k" header_csv]
    by (simp add: dl dd read_header_csv validate_header len_def persist_def persist_invalid_def
        report_def Let_def)
qed

lemma read_no_id_csv:
  "sample_read_csv no_id_csv = Inr \<lparr>columns = [''email''], rows = [[''a'']]\<rparr>"
  by code_simp

lemma validate_no_id:
  "sample_validate \<lparr>columns = [''email''], rows = [[''a'']]\<rparr> = Inl (ValueError ''Missing required columns'')"
  by code_simp

lemma to_csv_no_id: "sample_to_csv \<lparr>columns = [''email''], rows = [[''a'']]\<rparr> = no_id_csv"
  by code_simp


section \<open>The claims\<close>

text \<open>
  C8. Only the first record of the event counts: two events whose first records give
  the same bucket name and the same object key (or fail on them in the same way) make
  the handler return the same result, make the same calls and leave the same store,
  whatever else the events hold.
\<close>

theorem first_record_only:
  assumes "first_record event1 = Inr r1" and "first_record event2 = Inr r2"
    and "bucket_name r1 = bucket_name r2" and "object_key r1 = object_key r2"
  shows "lambda_handler D event1 s = lambda_handler D event2 s"
  using assms by (simp add: lambda_handler_def extract_first_record)

theorem first_record_only_witness:
  "lambda_handler sample_deps (s3_event ''b'' ''in/a.csv'') (store_with users_csv) =
   lambda_handler sample_deps (s3_event2 ''b'' ''in/a.csv'' (s3_record ''other'' ''in/b.csv''))
     (store_with users_csv)"
  using first_record_only [of "s3_event ''b'' ''in/a.csv''" "s3_record ''b'' ''in/a.csv''"
      "s3_event2 ''b'' ''in/a.csv'' (s3_record ''other'' ''in/b.csv'')" "s3_record ''b'' ''in/a.csv''"
      sample_deps "store_with users_csv"]
  by simp

text \<open>
  C9. When the event has no \<open>Records\<close> entry, or an empty \<open>Records\<close> list, or a
  first record without the bucket name or without the object key, the extraction raises,
  the handler raises the same exception, and it has made no call (no download, no hash,
  no upload) and left the store as it was.
\<close>

theorem extraction_failure_aborts:
  assumes "getitem event ''Records'' = Inl e
         \<or> getitem event ''Records'' = Inr (JList [])
         \<or> (\<exists>r. first_record event = Inr r \<and> (bucket_name r = Inl e \<or> object_key r = Inl e))"
  shows "\<exists>e'. extract_s3_event event = Inl e' \<and> lambda_handler D event s = (Inl e', [], s)"
proof -
  from assms have "\<exists>e'. extract_s3_event event = Inl e'"
    by (auto simp: extract_s3_event_def first_record_def and_then_def split: sum.splits)
  then show ?thesis
    by (auto simp: lambda_handler_def)
qed

theorem extraction_failure_aborts_witness:
  "getitem (JDict []) ''Records'' = Inl (KeyError ''Records'') \<and>
   (\<exists>e'. extract_s3_event (JDict []) = Inl e' \<and>
      lambda_handler sample_deps (JDict []) (store_with users_csv) = (Inl e', [], store_with users_csv))"
  using extraction_failure_aborts [of "JDict []" "KeyError ''Records''" sample_deps "store_with users_csv"]
  by simp

text \<open>
  C3, at the input where it fails: the object exists and the HEAD request is answered
  with 403. \<^verbatim>\<open>file_exists\<close> returns \<open>False\<close>; the error is not propagated.
\<close>

theorem file_exists_access_denied:
  "objects denied_store (''b'', ''k'') = Some ''x'' \<and>
   head_object denied_store (JStr ''b'') (JStr ''k'') = Inl (ClientError ''403'') \<and>
   file_exists denied_store (JStr ''b'') (JStr ''k'') = Inr False"
  by (simp add: file_exists_def head_object_def request_def location_def denied_store_def
      head_denied_def)

text \<open>
  C5. Take a frame with rectangular rows in which \<open>user_id\<close> is the label of column
  \<open>i\<close> and of no other column. The deduplication of the handler succeeds on it and
  keeps the columns. The rows it keeps are a subsequence of the rows it was given; no two
  of them have the same cell in the \<open>user_id\<close> column; every \<open>user_id\<close> cell of the
  input is the \<open>user_id\<close> cell of a row that is kept; and for every row of the input,
  the row kept with its \<open>user_id\<close> is the first row of the input with that \<open>user_id\<close>.
\<close>

theorem dedupe_keeps_first_occurrence:
  assumes "i < length (columns df)" and "columns df ! i = ''user_id''"
    and "\<forall>j < length (columns df). columns df ! j = ''user_id'' \<longrightarrow> j = i"
    and "\<forall>r \<in> set (rows df). length r = length (columns df)"
  shows "\<exists>df'. drop_duplicates [''user_id''] df = Inr df' \<and> columns df' = columns df \<and>
           subseq (rows df') (rows df) \<and>
           distinct (map (\<lambda>r. r ! i) (rows df')) \<and>
           (\<lambda>r. r ! i) ` set (rows df') = (\<lambda>r. r ! i) ` set (rows df) \<and>
           (\<forall>r \<in> set (rows df).
              find (\<lambda>x. x ! i = r ! i) (rows df') = find (\<lambda>x. x ! i = r ! i) (rows df))"
proof (cases "rows df = []")
  case True
  then show ?thesis by (simp add: drop_duplicates_def)
next
  case False
  from assms(1) have c: "columns df \<noteq> []" by auto
  from assms(1,2) have "''user_id'' \<in> set (columns df)" by (auto simp: in_set_conv_nth)
  then have "filter (\<lambda>name. name \<notin> set (columns df)) [''user_id''] = []" by simp
  with False c have d:
    "drop_duplicates [''user_id''] df
       = Inr (df\<lparr>rows := keep_first (key_of [''user_id''] (columns df)) [] (rows df)\<rparr>)"
    by (simp add: drop_duplicates_def)
  have "\<forall>r \<in> set (rows df). key_of [''user_id''] (columns df) r = [r ! i]"
  proof
    fix r assume "r \<in> set (rows df)"
    with assms(1,4) have "i < length r" by simp
    with assms(1,2,3) show "key_of [''user_id''] (columns df) r = [r ! i]"
      by (rule key_of_cell)
  qed
  from keep_first_cell [OF this, of "[]"]
  have k: "keep_first (key_of [''user_id''] (columns df)) [] (rows df)
             = keep_first (\<lambda>r. r ! i) [] (rows df)"
    by simp
  show ?thesis
    unfolding d k
    by (simp add: subseq_keep_first distinct_keep_first find_keep_first set_keep_first)
qed

theorem dedupe_keeps_first_occurrence_witness:
  "columns (frame [[''7'', ''a''], [''8'', ''b''], [''7'', ''c'']]) ! 0 = ''user_id'' \<and>
   drop_duplicates [''user_id''] (frame [[''7'', ''a''], [''8'', ''b''], [''7'', ''c'']])
     = Inr (frame [[''7'', ''a''], [''8'', ''b'']]) \<and>
   distinct (map (\<lambda>r. r ! 0) [[''7'', ''a''], [''8'', ''b'']]) \<and>
   (\<lambda>r. r ! 0) ` set [[''7'', ''a''], [''8'', ''b'']]
     = (\<lambda>r. r ! 0) ` set [[''7'', ''a''], [''8'', ''b''], [''7'', ''c'']] \<and>
   find (\<lambda>x. x ! 0 = [''7'', ''c''] ! 0) [[''7'', ''a''], [''8'', ''b'']] = Some [''7'', ''a'']"
  using dedupe_keeps_first_occurrence [of 0 "frame [[''7'', ''a''], [''8'', ''b''], [''7'', ''c'']]"]
  by (simp add: dedupe_three nth_Cons')

text \<open>
  C4. Whatever the event and the store, an upload of the handler goes to the bucket of
  the event, and its key is the processed template or the error template filled with the
  hash of the downloaded bytes: the key is a function of the content alone, not of the
  source key.
\<close>

theorem output_keys_from_fingerprint:
  assumes "UploadFile b k df \<in> set (calls (lambda_handler D event s))"
  shows "\<exists>key file_bytes.
           extract_s3_event event = Inr (b, key) \<and> download_file s b key = Inr file_bytes \<and>
           (k = JStr (''processed/users_cleaned_'' @ calculate_hash D file_bytes @ ''.csv'')
            \<or> k = JStr (''error/invalid_rows_'' @ calculate_hash D file_bytes @ ''.csv''))"
  using lambda_handler_uploads [OF assms] by (auto simp: processed_key_def error_key_def)

theorem output_keys_from_fingerprint_witness:
  "UploadFile (JStr ''b'') (JStr (processed_key users_csv)) (frame [[''7'', ''a'']])
     \<in> set (calls (lambda_handler sample_deps (s3_event ''b'' ''in/a.csv'') (store_with users_csv))) \<and>
   processed_key users_csv = ''processed/users_cleaned_'' @ calculate_hash sample_deps users_csv @ ''.csv''"
  using output_keys_from_fingerprint [of "JStr ''b''" "JStr (processed_key users_csv)"
      "frame [[''7'', ''a'']]" sample_deps "s3_event ''b'' ''in/a.csv''" "store_with users_csv"]
  by (simp add: users_run processed_key_def)




text \<open>
  C6. On a run that goes through validation and deduplication and reaches the end, the
  uploads are, in this order, the deduplicated valid partition to the processed key when
  it has rows, and the invalid partition to the error key when it has rows. The object at
  either key is then the serialised partition when the partition has rows, and what it
  was before the run when it has none.
\<close>

theorem partitions_uploaded_iff_nonempty:
  assumes "extract_s3_event event = Inr (bucket, key)"
    and "download_file s bucket key = Inr file_bytes"
    and "read_csv D file_bytes = Inr df0"
    and "normalize_dataframe D df0 = Inr df"
    and "validate_dataframe D df = Inr (valid_df, invalid_df)"
    and "drop_duplicates [''user_id''] valid_df = Inr valid_df'"
    and "result (lambda_handler D event s) = Inr (Reported m)"
  shows "uploads (calls (lambda_handler D event s)) =
           (if rows valid_df' \<noteq> []
            then [(bucket, JStr (processed_key (calculate_hash D file_bytes)), valid_df')] else []) @
           (if rows invalid_df \<noteq> []
            then [(bucket, JStr (error_key (calculate_hash D file_bytes)), invalid_df)] else [])
       \<and> (\<exists>bn. bucket = JStr bn \<and>
            objects (store (lambda_handler D event s)) (bn, processed_key (calculate_hash D file_bytes)) =
              (if rows valid_df' \<noteq> [] then Some (to_csv D valid_df')
               else objects s (bn, processed_key (calculate_hash D file_bytes))) \<and>
            objects (store (lambda_handler D event s)) (bn, error_key (calculate_hash D file_bytes)) =
              (if rows invalid_df \<noteq> [] then Some (to_csv D invalid_df)
               else objects s (bn, error_key (calculate_hash D file_bytes))))"
proof -
  let ?h = "calculate_hash D file_bytes"
  from lambda_handler_Reported [OF assms(7)] assms(1,2)
  have gate: "file_exists s bucket (JStr (processed_key ?h)) = Inr False"
    by auto
  have run: "lambda_handler D event s =
      after [LogInfo (ProcessingFile key), DownloadFile bucket key, CalculateHash file_bytes,
             FileExists bucket (JStr (processed_key ?h)),
             LoadIntoDataframe file_bytes, NormalizeDataframe df0,
             ValidateDataframe df, DropDuplicates valid_df]
        (persist D s bucket key ?h (len df0) valid_df' invalid_df)"
    by (simp add: lambda_handler_not_seen [OF assms(1,2) gate] process_parsed [OF assms(3,4)]
        validate_and_persist_partitioned [OF assms(5,6)])
  from assms(7)
  have rep: "result (persist D s bucket key ?h (len df0) valid_df' invalid_df) = Inr (Reported m)"
    by (simp add: run)
  from assms(2) obtain bn where bn: "bucket = JStr bn"
    by (auto simp: download_file_Inr)
  from persist_Reported [OF rep] bn show ?thesis
    by (simp add: run Let_def processed_key_neq_error_key processed_key_neq_error_key [symmetric])
qed

theorem partitions_uploaded_iff_nonempty_witness:
  "result (lambda_handler sample_deps (s3_event ''b'' ''in/a.csv'') (store_with users_csv))
     = Inr (Reported \<lparr>file_key = JStr ''in/a.csv'', hash = users_csv, total_rows = 3,
                      valid_rows = 1, invalid_rows = 1\<rparr>) \<and>
   uploads (calls (lambda_handler sample_deps (s3_event ''b'' ''in/a.csv'') (store_with users_csv)))
     = [(JStr ''b'', JStr (processed_key users_csv), frame [[''7'', ''a'']]),
        (JStr ''b'', JStr (error_key users_csv), frame [[''8'', '''']])]"
  using partitions_uploaded_iff_nonempty [of "s3_event ''b'' ''in/a.csv''" "JStr ''b''"
      "JStr ''in/a.csv''" "store_with users_csv" users_csv sample_deps
      "frame [[''7'', ''a''], [''7'', ''b''], [''8'', '''']]"
      "frame [[''7'', ''a''], [''7'', ''b''], [''8'', '''']]"
      "frame [[''7'', ''a''], [''7'', ''b'']]" "frame [[''8'', '''']]" "frame [[''7'', ''a'']]"
      "\<lparr>file_key = JStr ''in/a.csv'', hash = users_csv, total_rows = 3,
        valid_rows = 1, invalid_rows = 1\<rparr>"]
  by (simp add: read_users_csv validate_users dedupe_users users_run)

text \<open>
  C7. When the run reaches validation and validation raises \<open>ValueError\<close>, the one
  upload of the run is of the normalised frame, as it is, to the error key. If the
  store serves the upload, the run ends in \<open>SchemaFailed\<close> and the store differs from
  the one before the run in the object at the error key only, which is the serialised
  normalised frame; if it does not, the run raises what the store answered and the
  store is as before. Nothing is written under the processed key either way.
\<close>

theorem schema_error_persists_whole_file:
  assumes "extract_s3_event event = Inr (bucket, key)"
    and "download_file s bucket key = Inr file_bytes"
    and "file_exists s bucket (JStr (processed_key (calculate_hash D file_bytes))) = Inr False"
    and "read_csv D file_bytes = Inr df0"
    and "normalize_dataframe D df0 = Inr df"
    and "validate_dataframe D df = Inl (ValueError msg)"
  shows "uploads (calls (lambda_handler D event s)) =
           [(bucket, JStr (error_key (calculate_hash D file_bytes)), df)]
       \<and> (fault s PutOp bucket (JStr (error_key (calculate_hash D file_bytes))) = None \<longrightarrow>
            result (lambda_handler D event s) = Inr SchemaFailed \<and>
            (\<exists>bn. bucket = JStr bn \<and>
               objects (store (lambda_handler D event s)) =
                 (objects s)((bn, error_key (calculate_hash D file_bytes)) \<mapsto> to_csv D df)))
       \<and> (\<forall>e. fault s PutOp bucket (JStr (error_key (calculate_hash D file_bytes))) = Some e \<longrightarrow>
            result (lambda_handler D event s) = Inl e \<and> store (lambda_handler D event s) = s)"
proof -
  let ?h = "calculate_hash D file_bytes"
  let ?up = "upload_file D s bucket (JStr (error_key ?h)) df"
  have run: "lambda_handler D event s =
      after [LogInfo (ProcessingFile key), DownloadFile bucket key, CalculateHash file_bytes,
             FileExists bucket (JStr (processed_key ?h)),
             LoadIntoDataframe file_bytes, NormalizeDataframe df0,
             ValidateDataframe df, LogError (SchemaValidationFailed msg),
             UploadFile bucket (JStr (error_key ?h)) df]
        (case ?up of Inl e \<Rightarrow> (Inl e, [], s) | Inr s' \<Rightarrow> (Inr SchemaFailed, [], s'))"
    by (simp add: lambda_handler_not_seen [OF assms(1,2,3)] process_parsed [OF assms(4,5)]
        validate_and_persist_schema_error [OF assms(6)])
  from assms(2) obtain bn where bn: "bucket = JStr bn"
    by (auto simp: download_file_Inr)
  have up: "?up = (case fault s PutOp bucket (JStr (error_key ?h)) of
                     Some e \<Rightarrow> Inl e
                   | None \<Rightarrow> Inr (s\<lparr>objects := (objects s)((bn, error_key ?h) \<mapsto> to_csv D df)\<rparr>))"
    by (simp add: upload_file_def put_object_def request_def location_def bn split: option.splits)
  show ?thesis
    unfolding run up by (cases "fault s PutOp bucket (JStr (error_key ?h))") (simp_all add: bn)
qed

theorem schema_error_persists_whole_file_witness:
  "validate_dataframe sample_deps \<lparr>columns = [''email''], rows = [[''a'']]\<rparr>
     = Inl (ValueError ''Missing required columns'') \<and>
   uploads (calls (lambda_handler sample_deps (s3_event ''b'' ''in/a.csv'') (store_with no_id_csv)))
     = [(JStr ''b'', JStr (error_key no_id_csv), \<lparr>columns = [''email''], rows = [[''a'']]\<rparr>)] \<and>
   result (lambda_handler sample_deps (s3_event ''b'' ''in/a.csv'') (store_with no_id_csv))
     = Inr SchemaFailed"
  using schema_error_persists_whole_file [of "s3_event ''b'' ''in/a.csv''" "JStr ''b''"
      "JStr ''in/a.csv''" "store_with no_id_csv" no_id_csv sample_deps
      "\<lparr>columns = [''email''], rows = [[''a'']]\<rparr>" "\<lparr>columns = [''email''], rows = [[''a'']]\<rparr>"
      "''Missing required columns''"]
  by (simp add: read_no_id_csv validate_no_id)

text \<open>
  C2, at the input where it fails: a file without the \<open>user_id\<close> column. The run
  logs the schema error, uploads the frame to the error key and returns; the calls it
  made end with that upload, and no metrics record is logged.
\<close>

theorem schema_error_logs_no_metrics:
  "lambda_handler sample_deps (s3_event ''b'' ''in/a.csv'') (store_with no_id_csv) =
     (Inr SchemaFailed,
      [LogInfo (ProcessingFile (JStr ''in/a.csv'')),
       DownloadFile (JStr ''b'') (JStr ''in/a.csv''),
       CalculateHash no_id_csv,
       FileExists (JStr ''b'') (JStr (processed_key no_id_csv)),
       LoadIntoDataframe no_id_csv,
       NormalizeDataframe \<lparr>columns = [''email''], rows = [[''a'']]\<rparr>,
       ValidateDataframe \<lparr>columns = [''email''], rows = [[''a'']]\<rparr>,
       LogError (SchemaValidationFailed ''Missing required columns''),
       UploadFile (JStr ''b'') (JStr (error_key no_id_csv)) \<lparr>columns = [''email''], rows = [[''a'']]\<rparr>],
      no_id_store')"
  using lambda_handler_not_seen [of "s3_event ''b'' ''in/a.csv''" "JStr ''b''" "JStr ''in/a.csv''"
      "store_with no_id_csv" no_id_csv sample_deps]
    process_parsed [of sample_deps no_id_csv "\<lparr>columns = [''email''], rows = [[''a'']]\<rparr>"
      "\<lparr>columns = [''email''], rows = [[''a'']]\<rparr>"
      "store_with no_id_csv" "JStr ''b''" "JStr ''in/a.csv''" no_id_csv]
    validate_and_persist_schema_error [of sample_deps "\<lparr>columns = [''email''], rows = [[''a'']]\<rparr>"
      "''Missing required columns''" "store_with no_id_csv" "JStr ''b''" "JStr ''in/a.csv''" no_id_csv]
  by (simp add: read_no_id_csv validate_no_id to_csv_no_id upload_file_def put_object_def
      request_def location_def no_id_store'_def)


text \<open>
  C1. A first run reaches the end and reports a valid partition with rows, so that it
  has written the processed artifact. A second run, on the store the first one left, for
  an event of the same bucket whose source key (the same or another) holds the same
  bytes, and whose HEAD request the store serves, stops at the idempotency check: it
  returns from the skip branch, its calls are the download, the hash, the existence
  check and the skip notice, and the store is as it was.
\<close>

theorem second_run_skips:
  assumes "extract_s3_event event1 = Inr (bucket, key1)"
    and "download_file s bucket key1 = Inr file_bytes"
    and "lambda_handler D event1 s = (Inr (Reported m), cs, s')"
    and "valid_rows m > 0"
    and "extract_s3_event event2 = Inr (bucket, key2)"
    and "download_file s' bucket key2 = Inr file_bytes"
    and "fault s HeadOp bucket (JStr (processed_key (calculate_hash D file_bytes))) = None"
  shows "lambda_handler D event2 s' =
           (Inr SkippedDuplicate,
            [LogInfo (ProcessingFile key2), DownloadFile bucket key2, CalculateHash file_bytes,
             FileExists bucket (JStr (processed_key (calculate_hash D file_bytes))),
             LogInfo AlreadyProcessed],
            s')"
proof -
  let ?h = "calculate_hash D file_bytes"
  from assms(3) have rep: "result (lambda_handler D event1 s) = Inr (Reported m)"
    and st: "store (lambda_handler D event1 s) = s'"
    by simp_all
  from lambda_handler_Reported [OF rep] assms(1,2)
  have gate: "file_exists s bucket (JStr (processed_key ?h)) = Inr False"
    and p: "result (process D s bucket key1 file_bytes ?h) = Inr (Reported m)"
    by auto
  from process_Reported [OF p] obtain df0 df
    where rd: "read_csv D file_bytes = Inr df0" and nm: "normalize_dataframe D df0 = Inr df"
      and vp: "result (validate_and_persist D s bucket key1 ?h (len df0) df) = Inr (Reported m)"
    by blast
  from validate_and_persist_Reported [OF vp] obtain v i v'
    where vd: "validate_dataframe D df = Inr (v, i)"
      and dd: "drop_duplicates [''user_id''] v = Inr v'"
      and pr: "result (persist D s bucket key1 ?h (len df0) v' i) = Inr (Reported m)"
    by blast
  have run: "lambda_handler D event1 s =
      after [LogInfo (ProcessingFile key1), DownloadFile bucket key1, CalculateHash file_bytes,
             FileExists bucket (JStr (processed_key ?h)),
             LoadIntoDataframe file_bytes, NormalizeDataframe df0,
             ValidateDataframe df, DropDuplicates v]
        (persist D s bucket key1 ?h (len df0) v' i)"
    by (simp add: lambda_handler_not_seen [OF assms(1,2) gate] process_parsed [OF rd nm]
        validate_and_persist_partitioned [OF vd dd])
  from st have st': "store (persist D s bucket key1 ?h (len df0) v' i) = s'"
    by (simp add: run)
  from assms(2) obtain bn where bn: "bucket = JStr bn"
    by (auto simp: download_file_Inr)
  from persist_Reported [OF pr] assms(4) have rows: "rows v' \<noteq> []"
    by (auto simp: len_def)
  from persist_Reported [OF pr] bn rows st'
  have f: "fault s' = fault s" and ob: "objects s' (bn, processed_key ?h) \<noteq> None"
    by (auto simp: Let_def processed_key_neq_error_key [symmetric])
  from f ob bn assms(7) have seen: "file_exists s' bucket (JStr (processed_key ?h)) = Inr True"
    by (simp add: file_exists_True)
  from assms(5,6) seen show ?thesis
    by (simp add: lambda_handler_def Let_def)
qed

theorem second_run_skips_witness:
  "lambda_handler sample_deps (s3_event ''b'' ''in/copy.csv'') users_store' =
     (Inr SkippedDuplicate,
      [LogInfo (ProcessingFile (JStr ''in/copy.csv'')),
       DownloadFile (JStr ''b'') (JStr ''in/copy.csv''), CalculateHash users_csv,
       FileExists (JStr ''b'') (JStr (processed_key users_csv)),
       LogInfo AlreadyProcessed],
      users_store')"
  using second_run_skips [of "s3_event ''b'' ''in/a.csv''" "JStr ''b''" "JStr ''in/a.csv''"
      "store_with users_csv" users_csv sample_deps
      "\<lparr>file_key = JStr ''in/a.csv'', hash = users_csv, total_rows = 3,
        valid_rows = 1, invalid_rows = 1\<rparr>" _ users_store'
      "s3_event ''b'' ''in/copy.csv''" "JStr ''in/copy.csv''"]
  by (simp add: users_run users_store'_download)

text \<open>
  C1 as it is stated fails when the first run goes through all its steps and finds no
  valid row: a file that is a header without rows, under two source keys. The first run
  ends with its metrics and writes nothing; the second run, on the same bytes, parses,
  normalises and validates again and ends with its own metrics, not at the idempotency
  check.
\<close>

theorem rerun_after_empty_valid_partition:
  "result (lambda_handler sample_deps (s3_event ''b'' ''in/a.csv'') (store_with header_csv))
     = Inr (Reported \<lparr>file_key = JStr ''in/a.csv'', hash = header_csv, total_rows = 0,
                      valid_rows = 0, invalid_rows = 0\<rparr>) \<and>
   download_file (store (lambda_handler sample_deps (s3_event ''b'' ''in/a.csv'') (store_with header_csv)))
       (JStr ''b'') (JStr ''in/copy.csv'')
     = download_file (store_with header_csv) (JStr ''b'') (JStr ''in/a.csv'') \<and>
   result (lambda_handler sample_deps (s3_event ''b'' ''in/copy.csv'')
            (store (lambda_handler sample_deps (s3_event ''b'' ''in/a.csv'') (store_with header_csv))))
     = Inr (Reported \<lparr>file_key = JStr ''in/copy.csv'', hash = header_csv, total_rows = 0,
                      valid_rows = 0, invalid_rows = 0\<rparr>) \<and>
   ValidateDataframe (frame [])
     \<in> set (calls (lambda_handler sample_deps (s3_event ''b'' ''in/copy.csv'')
            (store (lambda_handler sample_deps (s3_event ''b'' ''in/a.csv'') (store_with header_csv)))))"
  by (simp add: header_run)

end
